theory Spec2Isabelle
  imports Complex_Main
begin

section \<open>The training driver \<^verbatim>\<open>train.py\<close> as a state-passing program\<close>

text \<open>
  \<^verbatim>\<open>train.py\<close> is a module-level script: it reads a configuration, builds a model, the
  data loaders, an optimizer and a learning-rate scheduler, and then runs the epoch loop
  (lines 92 to 210). Everything it calls (\<^verbatim>\<open>train_epoch\<close>, \<^verbatim>\<open>validation_epoch\<close>,
  \<^verbatim>\<open>scheduler.step\<close>, \<^verbatim>\<open>save_checkpoint\<close>, \<^verbatim>\<open>cleanup_checkpoint_dir\<close>, the framework)
  lives outside the file. The embedding therefore has three parts:
  \<^item> the values the script itself holds in variables (\<open>loop_state\<close>);
  \<^item> the world the external calls act on (model, optimizer, scheduler, files): an
    abstract type \<open>'w\<close>, transformed by the functions of an environment record \<open>env\<close>,
    one field per external call;
  \<^item> a trace of the external calls made, in order, with their arguments (\<open>events\<close>).

  Conventions. Python integers are \<open>int\<close>. Losses and accuracies are Python floats; they
  are only compared with \<open><\<close> and \<open>>\<close>, and are modelled as \<open>real\<close> (no NaN). A raised
  exception is a value \<open>Inl err\<close> of the result type and ends the run. The
  \<^verbatim>\<open>print\<close> statements are left out: each reads only variables assigned earlier in the
  same iteration (the validation ones under the guard \<^verbatim>\<open>'validation' in phases\<close>). The
  external calls are taken to return normally and to leave \<^verbatim>\<open>config\<close> and
  \<^verbatim>\<open>data_loaders\<close> as they are; \<open>config\<close> is the configuration as it stands when the
  loop is entered.
\<close>

subsection \<open>Data\<close>

datatype py_error = AssertionError | KeyError | NameError | ZeroDivisionError
  | ValueError | AttributeError

record config =
  start_epoch :: int
  num_epochs :: int
  lr_scheduler :: string
  lr_scheduler_milestones :: string
  lr_scheduler_gamma :: real
  lr_plateau_patience :: int
  checkpoint_dir :: string
  checkpoint_frequency :: int
  early_stopping_patience :: int
  save_dir :: string
  no_tensorboard :: bool

text \<open>The two scheduler objects of lines 109 and 112, with their constructor arguments.\<close>

datatype scheduler = ReduceLROnPlateau real int | MultiStepLR "int list" real

text \<open>The argument of \<^verbatim>\<open>scheduler.step\<close>: a validation loss (line 164) or an epoch (line 166).\<close>

datatype step_arg = StepLoss real | StepEpoch int

text \<open>
  One constructor per external call of the loop. \<open>SaveCheckpoint path epoch m o\<close> is
  \<^verbatim>\<open>save_checkpoint(path, epoch, model.state_dict(), optimizer.state_dict())\<close>.
\<close>

datatype ('m, 'o) event =
    TrainEpoch int
  | ValidationEpoch int
  | SchedulerStep scheduler step_arg
  | SaveCheckpoint string int 'm 'o
  | CleanupCheckpointDir
  | ExportScalars string
  | WriterClose

text \<open>
  The external calls. \<open>'l\<close> is a data loader, \<open>'m\<close> and \<open>'o\<close> are what
  \<^verbatim>\<open>model.state_dict()\<close> and \<^verbatim>\<open>optimizer.state_dict()\<close> return. The two epoch functions
  return \<^verbatim>\<open>(loss, acc, duration)\<close>. \<open>py_int\<close> is the builtin \<^verbatim>\<open>int(x)\<close> on strings,
  \<open>None\<close> where it raises \<^verbatim>\<open>ValueError\<close>.
\<close>

record ('w, 'm, 'o, 'l) env =
  train_epoch :: "'l \<Rightarrow> int \<Rightarrow> 'w \<Rightarrow> (real \<times> real \<times> real) \<times> 'w"
  validation_epoch :: "'l \<Rightarrow> int \<Rightarrow> 'w \<Rightarrow> (real \<times> real \<times> real) \<times> 'w"
  scheduler_step :: "scheduler \<Rightarrow> step_arg \<Rightarrow> 'w \<Rightarrow> 'w"
  model_state_dict :: "'w \<Rightarrow> 'm"
  optimizer_state_dict :: "'w \<Rightarrow> 'o"
  save_checkpoint :: "string \<Rightarrow> int \<Rightarrow> 'm \<Rightarrow> 'o \<Rightarrow> 'w \<Rightarrow> 'w"
  cleanup_checkpoint_dir :: "'w \<Rightarrow> 'w"
  py_int :: "string \<Rightarrow> int option"

text \<open>
  The script's variables: \<^verbatim>\<open>val_acc_history\<close> and \<^verbatim>\<open>best_val_acc\<close> (lines 125, 126),
  \<^verbatim>\<open>val_loss\<close> and \<^verbatim>\<open>val_acc\<close> (line 150; \<open>None\<close> while the name is unbound), the world and
  the trace.
\<close>

record ('w, 'm, 'o) loop_state =
  world :: 'w
  val_acc_history :: "real list"
  best_val_acc :: real
  val_loss :: "real option"
  val_acc :: "real option"
  events :: "('m, 'o) event list"

definition init_state :: "'w \<Rightarrow> ('w, 'm, 'o) loop_state" where
  "init_state w = \<lparr>world = w, val_acc_history = [], best_val_acc = 0,
     val_loss = None, val_acc = None, events = []\<rparr>"

text \<open>The events a piece of the program added to the trace.\<close>

definition emitted :: "('w, 'm, 'o) loop_state \<Rightarrow> ('w, 'm, 'o) loop_state \<Rightarrow> ('m, 'o) event list" where
  "emitted s s' = drop (length (events s)) (events s')"

subsection \<open>Library functions the script uses\<close>

text \<open>\<^verbatim>\<open>os.path.join(a, b)\<close> on a POSIX system.\<close>

definition path_join :: "string \<Rightarrow> string \<Rightarrow> string" where
  "path_join a b =
     (if b \<noteq> [] \<and> hd b = CHR ''/'' then b
      else if a = [] \<or> last a = CHR ''/'' then a @ b
      else a @ ''/'' @ b)"

text \<open>\<^verbatim>\<open>str(n)\<close> for \<open>n \<ge> 0\<close>: the decimal digits, most significant first.\<close>

definition digit_char :: "nat \<Rightarrow> char" where
  "digit_char d = ''0123456789'' ! d"

fun digits_of :: "nat \<Rightarrow> string" where
  "digits_of n =
     (if n < 10 then [digit_char n] else digits_of (n div 10) @ [digit_char (n mod 10)])"

declare digits_of.simps [simp del]

text \<open>
  \<^verbatim>\<open>'{:03d}'.format(n)\<close>: width 3, padded with zeros between the sign and the digits
  (\<^verbatim>\<open>'007'\<close>, \<^verbatim>\<open>'-05'\<close>, \<^verbatim>\<open>'1234'\<close>).
\<close>

definition format_03d :: "int \<Rightarrow> string" where
  "format_03d n =
     (let sign = (if n < 0 then ''-'' else '''');
          ds = digits_of (nat \<bar>n\<bar>)
      in sign @ replicate (3 - length sign - length ds) CHR ''0'' @ ds)"

text \<open>\<^verbatim>\<open>s.split(',')\<close>.\<close>

fun split_comma :: "string \<Rightarrow> string list" where
  "split_comma [] = [[]]"
| "split_comma (c # cs) =
     (if c = CHR '','' then [] # split_comma cs
      else (case split_comma cs of [] \<Rightarrow> [[c]] | w # ws \<Rightarrow> (c # w) # ws))"

text \<open>\<^verbatim>\<open>[int(x) for x in xs]\<close>: the first \<^verbatim>\<open>ValueError\<close> ends the comprehension.\<close>

fun int_all :: "(string \<Rightarrow> int option) \<Rightarrow> string list \<Rightarrow> py_error + int list" where
  "int_all f [] = Inr []"
| "int_all f (x # xs) =
     (case f x of
        None \<Rightarrow> Inl ValueError
      | Some n \<Rightarrow> (case int_all f xs of Inl e \<Rightarrow> Inl e | Inr ns \<Rightarrow> Inr (n # ns)))"

text \<open>
  The slice \<^verbatim>\<open>xs[i:]\<close>: a negative start counts from the end and is clipped at 0, a
  start past the end gives the empty list. Note \<^verbatim>\<open>xs[-0:]\<close> is \<^verbatim>\<open>xs[0:]\<close>, the whole list.
\<close>

definition slice_from :: "int \<Rightarrow> 'a list \<Rightarrow> 'a list" where
  "slice_from i xs =
     (let n = int (length xs);
          j = (if i < 0 then max 0 (i + n) else min i n)
      in drop (nat j) xs)"

subsection \<open>Set-up: lines 92 and 106 to 112\<close>

definition phases_of :: "(string \<rightharpoonup> 'l) \<Rightarrow> string list" where
  "phases_of data_loaders =
     (if data_loaders ''validation'' \<noteq> None then [''train'', ''validation''] else [''train''])"

definition make_scheduler ::
  "('w, 'm, 'o, 'l) env \<Rightarrow> config \<Rightarrow> string list \<Rightarrow> py_error + scheduler" where
  "make_scheduler env cfg phases =
     (if lr_scheduler cfg = ''plateau'' then
        (if ''validation'' \<in> set phases
         then Inr (ReduceLROnPlateau (lr_scheduler_gamma cfg) (lr_plateau_patience cfg))
         else Inl AssertionError)
      else
        (case int_all (py_int env) (split_comma (lr_scheduler_milestones cfg)) of
           Inl e \<Rightarrow> Inl e
         | Inr milestones \<Rightarrow> Inr (MultiStepLR milestones (lr_scheduler_gamma cfg))))"

subsection \<open>One iteration of the epoch loop: lines 131 to 203\<close>

text \<open>One pass of \<^verbatim>\<open>for phase in phases\<close> (lines 133 to 160).\<close>

definition run_phase ::
  "('w, 'm, 'o, 'l) env \<Rightarrow> (string \<rightharpoonup> 'l) \<Rightarrow> int \<Rightarrow> string \<Rightarrow>
   ('w, 'm, 'o) loop_state \<Rightarrow> py_error + ('w, 'm, 'o) loop_state" where
  "run_phase env data_loaders epoch phase s =
     (if phase = ''train'' then
        (case data_loaders ''train'' of
           None \<Rightarrow> Inl KeyError
         | Some loader \<Rightarrow>
             (case train_epoch env loader epoch (world s) of
                ((train_loss, train_acc, train_duration), w) \<Rightarrow>
                  Inr (s\<lparr>world := w, events := events s @ [TrainEpoch epoch]\<rparr>)))
      else if phase = ''validation'' then
        (case data_loaders ''validation'' of
           None \<Rightarrow> Inl KeyError
         | Some loader \<Rightarrow>
             (case validation_epoch env loader epoch (world s) of
                ((vl, va, val_duration), w) \<Rightarrow>
                  Inr (s\<lparr>world := w, val_loss := Some vl, val_acc := Some va,
                         val_acc_history := val_acc_history s @ [va],
                         events := events s @ [ValidationEpoch epoch]\<rparr>)))
      else Inr s)"

fun run_phases ::
  "('w, 'm, 'o, 'l) env \<Rightarrow> (string \<rightharpoonup> 'l) \<Rightarrow> int \<Rightarrow> string list \<Rightarrow>
   ('w, 'm, 'o) loop_state \<Rightarrow> py_error + ('w, 'm, 'o) loop_state" where
  "run_phases env data_loaders epoch [] s = Inr s"
| "run_phases env data_loaders epoch (phase # rest) s =
     (case run_phase env data_loaders epoch phase s of
        Inl e \<Rightarrow> Inl e
      | Inr s' \<Rightarrow> run_phases env data_loaders epoch rest s')"

text \<open>Lines 163 to 166. Reading \<^verbatim>\<open>val_loss\<close> while it is unbound raises \<^verbatim>\<open>NameError\<close>.\<close>

definition update_lr ::
  "('w, 'm, 'o, 'l) env \<Rightarrow> config \<Rightarrow> scheduler \<Rightarrow> int \<Rightarrow>
   ('w, 'm, 'o) loop_state \<Rightarrow> py_error + ('w, 'm, 'o) loop_state" where
  "update_lr env cfg sch epoch s =
     (if lr_scheduler cfg = ''plateau'' then
        (case val_loss s of
           None \<Rightarrow> Inl NameError
         | Some vl \<Rightarrow>
             Inr (s\<lparr>world := scheduler_step env sch (StepLoss vl) (world s),
                    events := events s @ [SchedulerStep sch (StepLoss vl)]\<rparr>))
      else
        Inr (s\<lparr>world := scheduler_step env sch (StepEpoch epoch) (world s),
               events := events s @ [SchedulerStep sch (StepEpoch epoch)]\<rparr>))"

text \<open>
  The call \<^verbatim>\<open>save_checkpoint(path, epoch, model.state_dict(), optimizer.state_dict())\<close> of
  lines 184 and 192: both state dictionaries are read from the world as it is at the call.
\<close>

definition do_save_checkpoint ::
  "('w, 'm, 'o, 'l) env \<Rightarrow> string \<Rightarrow> int \<Rightarrow> ('w, 'm, 'o) loop_state \<Rightarrow> ('w, 'm, 'o) loop_state" where
  "do_save_checkpoint env checkpoint_path epoch s =
     (let m = model_state_dict env (world s);
          opt = optimizer_state_dict env (world s)
      in s\<lparr>world := save_checkpoint env checkpoint_path epoch m opt (world s),
           events := events s @ [SaveCheckpoint checkpoint_path epoch m opt]\<rparr>)"

definition best_path :: "config \<Rightarrow> string" where
  "best_path cfg = path_join (checkpoint_dir cfg) ''save_best.pth''"

definition periodic_path :: "config \<Rightarrow> int \<Rightarrow> string" where
  "periodic_path cfg epoch =
     path_join (checkpoint_dir cfg) (''save_'' @ format_03d (epoch + 1) @ ''.pth'')"

text \<open>
  Lines 182 to 187. \<^verbatim>\<open>and\<close> evaluates \<^verbatim>\<open>val_acc\<close> only when \<^verbatim>\<open>'validation' in phases\<close>.
\<close>

definition save_best ::
  "('w, 'm, 'o, 'l) env \<Rightarrow> config \<Rightarrow> string list \<Rightarrow> int \<Rightarrow>
   ('w, 'm, 'o) loop_state \<Rightarrow> py_error + ('w, 'm, 'o) loop_state" where
  "save_best env cfg phases epoch s =
     (if ''validation'' \<in> set phases then
        (case val_acc s of
           None \<Rightarrow> Inl NameError
         | Some va \<Rightarrow>
             if va > best_val_acc s
             then Inr ((do_save_checkpoint env (best_path cfg) epoch s)\<lparr>best_val_acc := va\<rparr>)
             else Inr s)
      else Inr s)"

text \<open>Lines 190 to 194. \<^verbatim>\<open>epoch % 0\<close> raises; otherwise \<^verbatim>\<open>%\<close> is \<open>mod\<close> on \<open>int\<close>.\<close>

definition save_periodic ::
  "('w, 'm, 'o, 'l) env \<Rightarrow> config \<Rightarrow> int \<Rightarrow>
   ('w, 'm, 'o) loop_state \<Rightarrow> py_error + ('w, 'm, 'o) loop_state" where
  "save_periodic env cfg epoch s =
     (if checkpoint_frequency cfg = 0 then Inl ZeroDivisionError
      else if epoch mod checkpoint_frequency cfg = 0 then
        (let s1 = do_save_checkpoint env (periodic_path cfg epoch) epoch s
         in Inr (s1\<lparr>world := cleanup_checkpoint_dir env (world s1),
                    events := events s1 @ [CleanupCheckpointDir]\<rparr>))
      else Inr s)"

text \<open>Lines 197 to 203: \<open>True\<close> when the loop executes \<^verbatim>\<open>break\<close>.\<close>

definition early_stopping :: "config \<Rightarrow> int \<Rightarrow> ('w, 'm, 'o) loop_state \<Rightarrow> bool" where
  "early_stopping cfg epoch s =
     (if epoch > early_stopping_patience cfg then
        (let last_val_acc = slice_from (- early_stopping_patience cfg) (val_acc_history s)
         in list_all (\<lambda>acc. acc < best_val_acc s) last_val_acc)
      else False)"

text \<open>The loop body: the state after the iteration, and whether it ended in \<^verbatim>\<open>break\<close>.\<close>

definition epoch_body ::
  "('w, 'm, 'o, 'l) env \<Rightarrow> config \<Rightarrow> (string \<rightharpoonup> 'l) \<Rightarrow> string list \<Rightarrow> scheduler \<Rightarrow> int \<Rightarrow>
   ('w, 'm, 'o) loop_state \<Rightarrow> py_error + (('w, 'm, 'o) loop_state \<times> bool)" where
  "epoch_body env cfg data_loaders phases sch epoch s =
     (case run_phases env data_loaders epoch phases s of
        Inl e \<Rightarrow> Inl e
      | Inr s1 \<Rightarrow>
     (case update_lr env cfg sch epoch s1 of
        Inl e \<Rightarrow> Inl e
      | Inr s2 \<Rightarrow>
     (case save_best env cfg phases epoch s2 of
        Inl e \<Rightarrow> Inl e
      | Inr s3 \<Rightarrow>
     (case save_periodic env cfg epoch s3 of
        Inl e \<Rightarrow> Inl e
      | Inr s4 \<Rightarrow> Inr (s4, early_stopping cfg epoch s4)))))"

subsection \<open>The loop and the script\<close>

text \<open>
  \<^verbatim>\<open>for epoch in range(config.start_epoch, config.num_epochs+1)\<close> over the list of epochs
  still to run. Besides the outcome the function returns the loop-head configurations it
  went through: the epoch counter and the state at the start of every iteration begun.
\<close>

fun epoch_loop ::
  "('w, 'm, 'o, 'l) env \<Rightarrow> config \<Rightarrow> (string \<rightharpoonup> 'l) \<Rightarrow> string list \<Rightarrow> scheduler \<Rightarrow> int list \<Rightarrow>
   ('w, 'm, 'o) loop_state \<Rightarrow>
   (int \<times> ('w, 'm, 'o) loop_state) list \<times> (py_error + ('w, 'm, 'o) loop_state)" where
  "epoch_loop env cfg data_loaders phases sch [] s = ([], Inr s)"
| "epoch_loop env cfg data_loaders phases sch (epoch # rest) s =
     (case epoch_body env cfg data_loaders phases sch epoch s of
        Inl e \<Rightarrow> ([(epoch, s)], Inl e)
      | Inr (s', brk) \<Rightarrow>
          if brk then ([(epoch, s)], Inr s')
          else (case epoch_loop env cfg data_loaders phases sch rest s' of
                  (its, r) \<Rightarrow> ((epoch, s) # its, r)))"

text \<open>Lines 207 and 208: \<^verbatim>\<open>writer\<close> is \<^verbatim>\<open>None\<close> when \<^verbatim>\<open>config.no_tensorboard\<close> (line 54).\<close>

definition export_logs :: "config \<Rightarrow> ('w, 'm, 'o) loop_state \<Rightarrow> py_error + ('w, 'm, 'o) loop_state" where
  "export_logs cfg s =
     (if no_tensorboard cfg then Inl AttributeError
      else Inr (s\<lparr>events := events s @
                   [ExportScalars (path_join (save_dir cfg) ''all_scalars.json''), WriterClose]\<rparr>))"

text \<open>The script from line 92 on, started in world \<open>w0\<close>.\<close>

definition main ::
  "('w, 'm, 'o, 'l) env \<Rightarrow> config \<Rightarrow> (string \<rightharpoonup> 'l) \<Rightarrow> 'w \<Rightarrow>
   (int \<times> ('w, 'm, 'o) loop_state) list \<times> (py_error + ('w, 'm, 'o) loop_state)" where
  "main env cfg data_loaders w0 =
     (let phases = phases_of data_loaders in
      case make_scheduler env cfg phases of
        Inl e \<Rightarrow> ([], Inl e)
      | Inr sch \<Rightarrow>
          (case epoch_loop env cfg data_loaders phases sch
                  [start_epoch cfg .. num_epochs cfg] (init_state w0) of
             (its, Inl e) \<Rightarrow> (its, Inl e)
           | (its, Inr s) \<Rightarrow> (its, export_logs cfg s)))"

subsection \<open>Notions used to state the properties\<close>

text \<open>
  What \<^verbatim>\<open>validation_epoch\<close> returns in the iteration that starts in state \<open>s\<close>: it is
  called on the world \<^verbatim>\<open>train_epoch\<close> has left. \<open>None\<close> when a loader is missing.
\<close>

definition epoch_val_result ::
  "('w, 'm, 'o, 'l) env \<Rightarrow> (string \<rightharpoonup> 'l) \<Rightarrow> int \<Rightarrow> ('w, 'm, 'o) loop_state \<Rightarrow>
   (real \<times> real \<times> real) option" where
  "epoch_val_result env data_loaders epoch s =
     (case data_loaders ''train'' of
        None \<Rightarrow> None
      | Some tloader \<Rightarrow>
          (case data_loaders ''validation'' of
             None \<Rightarrow> None
           | Some vloader \<Rightarrow>
               Some (fst (validation_epoch env vloader epoch
                            (snd (train_epoch env tloader epoch (world s)))))))"

text \<open>The calls of the phase loop in one iteration, in order.\<close>

definition phase_calls :: "(string \<rightharpoonup> 'l) \<Rightarrow> int \<Rightarrow> ('m, 'o) event list" where
  "phase_calls dls epoch =
     (if dls ''validation'' \<noteq> None then [TrainEpoch epoch, ValidationEpoch epoch]
      else [TrainEpoch epoch])"

fun is_phase_call :: "('m, 'o) event \<Rightarrow> bool" where
  "is_phase_call (TrainEpoch _) = True"
| "is_phase_call (ValidationEpoch _) = True"
| "is_phase_call _ = False"







subsection \<open>A concrete run\<close>

text \<open>
  A small environment on which the script can be evaluated. The world counts the calls of
  \<^verbatim>\<open>train_epoch\<close>; the validation accuracy is 3/4 in epoch 1 and 1/2 afterwards.
\<close>

definition demo_env :: "(nat, nat, nat, unit) env" where
  "demo_env =
     \<lparr>train_epoch = (\<lambda>loader epoch w. ((1, 1 / 4, 60), Suc w)),
      validation_epoch = (\<lambda>loader epoch w. ((2, if epoch = 1 then 3 / 4 else 1 / 2, 30), w)),
      scheduler_step = (\<lambda>sch arg w. w),
      model_state_dict = (\<lambda>w. w),
      optimizer_state_dict = (\<lambda>w. 10 * w),
      save_checkpoint = (\<lambda>path epoch m opt w. w),
      cleanup_checkpoint_dir = (\<lambda>w. w),
      py_int = (\<lambda>x. if x = ''30'' then Some 30 else None)\<rparr>"

definition demo_cfg :: config where
  "demo_cfg =
     \<lparr>start_epoch = 1, num_epochs = 5, lr_scheduler = ''multistep'',
      lr_scheduler_milestones = ''30'', lr_scheduler_gamma = 1 / 10, lr_plateau_patience = 10,
      checkpoint_dir = ''ckpt'', checkpoint_frequency = 2, early_stopping_patience = 2,
      save_dir = ''out'', no_tensorboard = False\<rparr>"

definition demo_loaders :: "string \<rightharpoonup> unit" where
  "demo_loaders = [''train'' \<mapsto> (), ''validation'' \<mapsto> ()]"

definition train_only :: "string \<rightharpoonup> unit" where
  "train_only = [''train'' \<mapsto> ()]"

definition demo_sch :: scheduler where
  "demo_sch = MultiStepLR [30] (1 / 10)"


text \<open>The same configuration with the plateau scheduler, and with patience 0.\<close>

definition plateau_cfg :: config where
  "plateau_cfg = demo_cfg\<lparr>lr_scheduler := ''plateau''\<rparr>"


text \<open>
  The states of the run of \<open>demo_cfg\<close> with both loaders after epochs 1, 2 and 3. Epoch 1
  sets the best accuracy, epoch 2 writes the periodic checkpoint, epoch 3 ends in
  \<^verbatim>\<open>break\<close>.
\<close>

definition demo_state_1 :: "(nat, nat, nat) loop_state" where
  "demo_state_1 =
     \<lparr>world = 1, val_acc_history = [3 / 4], best_val_acc = 3 / 4,
      val_loss = Some 2, val_acc = Some (3 / 4),
      events = [TrainEpoch 1, ValidationEpoch 1, SchedulerStep demo_sch (StepEpoch 1),
                SaveCheckpoint ''ckpt/save_best.pth'' 1 1 10]\<rparr>"

definition demo_state_2 :: "(nat, nat, nat) loop_state" where
  "demo_state_2 =
     \<lparr>world = 2, val_acc_history = [3 / 4, 1 / 2], best_val_acc = 3 / 4,
      val_loss = Some 2, val_acc = Some (1 / 2),
      events = events demo_state_1 @
               [TrainEpoch 2, ValidationEpoch 2, SchedulerStep demo_sch (StepEpoch 2),
                SaveCheckpoint ''ckpt/save_003.pth'' 2 2 20, CleanupCheckpointDir]\<rparr>"

definition demo_state_3 :: "(nat, nat, nat) loop_state" where
  "demo_state_3 =
     \<lparr>world = 3, val_acc_history = [3 / 4, 1 / 2, 1 / 2], best_val_acc = 3 / 4,
      val_loss = Some 2, val_acc = Some (1 / 2),
      events = events demo_state_2 @
               [TrainEpoch 3, ValidationEpoch 3, SchedulerStep demo_sch (StepEpoch 3)]\<rparr>"


text \<open>The states of the run of \<open>demo_cfg\<close> with the training loader only.\<close>

definition train_state_1 :: "(nat, nat, nat) loop_state" where
  "train_state_1 =
     \<lparr>world = 1, val_acc_history = [], best_val_acc = 0, val_loss = None, val_acc = None,
      events = [TrainEpoch 1, SchedulerStep demo_sch (StepEpoch 1)]\<rparr>"

definition train_state_2 :: "(nat, nat, nat) loop_state" where
  "train_state_2 =
     \<lparr>world = 2, val_acc_history = [], best_val_acc = 0, val_loss = None, val_acc = None,
      events = events train_state_1 @
               [TrainEpoch 2, SchedulerStep demo_sch (StepEpoch 2),
                SaveCheckpoint ''ckpt/save_003.pth'' 2 2 20, CleanupCheckpointDir]\<rparr>"

definition train_state_3 :: "(nat, nat, nat) loop_state" where
  "train_state_3 =
     \<lparr>world = 3, val_acc_history = [], best_val_acc = 0, val_loss = None, val_acc = None,
      events = events train_state_2 @ [TrainEpoch 3, SchedulerStep demo_sch (StepEpoch 3)]\<rparr>"

section \<open>Auxiliary facts\<close>

subsection \<open>Numbers in file names\<close>















subsection \<open>The effect of each part of the loop body\<close>

lemma emitted_append: "events s' = events s @ evs \<Longrightarrow> emitted s s' = evs"
  by (simp add: emitted_def)

lemma epoch_body_split:
  assumes "epoch_body env cfg dls phases sch epoch s = Inr (s', brk)"
  obtains s1 s2 s3 where
    "run_phases env dls epoch phases s = Inr s1"
    "update_lr env cfg sch epoch s1 = Inr s2"
    "save_best env cfg phases epoch s2 = Inr s3"
    "save_periodic env cfg epoch s3 = Inr s'"
    "brk = early_stopping cfg epoch s'"
  using assms by (auto simp: epoch_body_def split: sum.splits)

lemma run_phases_no_validation:
  assumes "dls ''validation'' = None"
    and "run_phases env dls epoch (phases_of dls) s = Inr s1"
  shows "events s1 = events s @ [TrainEpoch epoch]"
    and "val_acc_history s1 = val_acc_history s"
    and "best_val_acc s1 = best_val_acc s"
    and "val_loss s1 = val_loss s"
    and "val_acc s1 = val_acc s"
  using assms
  by (auto simp: phases_of_def run_phase_def split: option.splits prod.splits)

lemma run_phases_validation:
  assumes "dls ''validation'' = Some vloader"
    and "run_phases env dls epoch (phases_of dls) s = Inr s1"
  shows "events s1 = events s @ [TrainEpoch epoch, ValidationEpoch epoch]"
    and "\<exists>l a d. epoch_val_result env dls epoch s = Some (l, a, d) \<and> val_loss s1 = Some l \<and>
           val_acc s1 = Some a \<and> val_acc_history s1 = val_acc_history s @ [a]"
    and "best_val_acc s1 = best_val_acc s"
  using assms
  by (auto simp: phases_of_def run_phase_def epoch_val_result_def
           split: option.splits prod.splits sum.splits)

lemma update_lr_effect:
  assumes "update_lr env cfg sch epoch s1 = Inr s2"
  shows "events s2 = events s1 @
           [SchedulerStep sch (if lr_scheduler cfg = ''plateau''
                               then StepLoss (the (val_loss s1)) else StepEpoch epoch)]"
    and "val_acc_history s2 = val_acc_history s1"
    and "best_val_acc s2 = best_val_acc s1"
    and "val_loss s2 = val_loss s1"
    and "val_acc s2 = val_acc s1"
  using assms
  by (auto simp: update_lr_def split: option.splits if_splits)

lemma save_best_effect:
  assumes "save_best env cfg phases epoch s2 = Inr s3"
  shows "events s3 = events s2 @
           (if ''validation'' \<in> set phases \<and> the (val_acc s2) > best_val_acc s2
            then [SaveCheckpoint (best_path cfg) epoch (model_state_dict env (world s2))
                    (optimizer_state_dict env (world s2))]
            else [])"
    and "val_acc_history s3 = val_acc_history s2"
    and "best_val_acc s3 =
           (if ''validation'' \<in> set phases \<and> the (val_acc s2) > best_val_acc s2
            then the (val_acc s2) else best_val_acc s2)"
    and "val_loss s3 = val_loss s2"
    and "val_acc s3 = val_acc s2"
  using assms
  by (auto simp: save_best_def do_save_checkpoint_def Let_def split: option.splits if_splits)

lemma save_periodic_effect:
  assumes "save_periodic env cfg epoch s3 = Inr s4"
  shows "events s4 = events s3 @
           (if epoch mod checkpoint_frequency cfg = 0
            then [SaveCheckpoint (periodic_path cfg epoch) epoch (model_state_dict env (world s3))
                    (optimizer_state_dict env (world s3)), CleanupCheckpointDir]
            else [])"
    and "val_acc_history s4 = val_acc_history s3"
    and "best_val_acc s4 = best_val_acc s3"
    and "val_loss s4 = val_loss s3"
    and "val_acc s4 = val_acc s3"
    and "checkpoint_frequency cfg \<noteq> 0"
  using assms
  by (auto simp: save_periodic_def do_save_checkpoint_def Let_def split: option.splits if_splits)

lemma phases_of_validation: "''validation'' \<in> set (phases_of dls) \<longleftrightarrow> dls ''validation'' \<noteq> None"
  by (simp add: phases_of_def)

text \<open>The whole trace of one iteration, and the script's variables after it.\<close>

lemma epoch_body_trace:
  fixes env :: "('w, 'm, 'o, 'l) env" and s :: "('w, 'm, 'o) loop_state"
  assumes "epoch_body env cfg dls (phases_of dls) sch epoch s = Inr (s', brk)"
  obtains s1 :: "('w, 'm, 'o) loop_state" and s2 :: "('w, 'm, 'o) loop_state"
    and s3 :: "('w, 'm, 'o) loop_state" where
    "events s1 = events s @ phase_calls dls epoch"
    "events s2 = events s1 @
       [SchedulerStep sch (if lr_scheduler cfg = ''plateau''
                           then StepLoss (the (val_loss s1)) else StepEpoch epoch)]"
    "events s3 = events s2 @
       (if dls ''validation'' \<noteq> None \<and> the (val_acc s1) > best_val_acc s
        then [SaveCheckpoint (best_path cfg) epoch (model_state_dict env (world s2))
                (optimizer_state_dict env (world s2))]
        else [])"
    "events s' = events s3 @
       (if epoch mod checkpoint_frequency cfg = 0
        then [SaveCheckpoint (periodic_path cfg epoch) epoch (model_state_dict env (world s3))
                (optimizer_state_dict env (world s3)), CleanupCheckpointDir]
        else [])"
    "checkpoint_frequency cfg \<noteq> 0"
    "run_phases env dls epoch (phases_of dls) s = Inr s1"
    "val_acc_history s' = val_acc_history s1"
    "best_val_acc s' =
       (if dls ''validation'' \<noteq> None \<and> the (val_acc s1) > best_val_acc s
        then the (val_acc s1) else best_val_acc s)"
    "brk = early_stopping cfg epoch s'"
proof -
  from assms obtain s1 s2 s3 where
    ph: "run_phases env dls epoch (phases_of dls) s = Inr s1" and
    lr: "update_lr env cfg sch epoch s1 = Inr s2" and
    sb: "save_best env cfg (phases_of dls) epoch s2 = Inr s3" and
    sp: "save_periodic env cfg epoch s3 = Inr s'" and
    brk: "brk = early_stopping cfg epoch s'"
    by (rule epoch_body_split)
  have e1: "events s1 = events s @ phase_calls dls epoch"
    using ph run_phases_no_validation(1) [of dls env epoch s s1]
      run_phases_validation(1) [of dls _ env epoch s s1]
    by (cases "dls ''validation''") (auto simp: phase_calls_def)
  have b1: "best_val_acc s1 = best_val_acc s"
    using ph run_phases_no_validation(3) [of dls env epoch s s1]
      run_phases_validation(3) [of dls _ env epoch s s1]
    by (cases "dls ''validation''") auto
  note l = update_lr_effect [OF lr]
  note b = save_best_effect [OF sb]
  note p = save_periodic_effect [OF sp]
  show ?thesis
  proof (rule that [of s1 s2 s3])
    show "events s1 = events s @ phase_calls dls epoch" by (rule e1)
    show "events s2 = events s1 @
       [SchedulerStep sch (if lr_scheduler cfg = ''plateau''
                           then StepLoss (the (val_loss s1)) else StepEpoch epoch)]"
      by (rule l(1))
    show "events s3 = events s2 @
       (if dls ''validation'' \<noteq> None \<and> the (val_acc s1) > best_val_acc s
        then [SaveCheckpoint (best_path cfg) epoch (model_state_dict env (world s2))
                (optimizer_state_dict env (world s2))]
        else [])"
      using b(1) l(3,5) b1 by (simp add: phases_of_validation)
    show "events s' = events s3 @
       (if epoch mod checkpoint_frequency cfg = 0
        then [SaveCheckpoint (periodic_path cfg epoch) epoch (model_state_dict env (world s3))
                (optimizer_state_dict env (world s3)), CleanupCheckpointDir]
        else [])"
      by (rule p(1))
    show "checkpoint_frequency cfg \<noteq> 0" by (rule p(6))
    show "run_phases env dls epoch (phases_of dls) s = Inr s1" by (rule ph)
    show "val_acc_history s' = val_acc_history s1"
      using l(2) b(2) p(2) by simp
    show "best_val_acc s' =
       (if dls ''validation'' \<noteq> None \<and> the (val_acc s1) > best_val_acc s
        then the (val_acc s1) else best_val_acc s)"
      using p(3) b(3) l(3,5) b1 by (simp add: phases_of_validation)
    show "brk = early_stopping cfg epoch s'" by (rule brk)
  qed
qed

lemma epoch_body_emitted:
  fixes env :: "('w, 'm, 'o, 'l) env" and s :: "('w, 'm, 'o) loop_state"
  assumes "epoch_body env cfg dls (phases_of dls) sch epoch s = Inr (s', brk)"
  shows "\<exists>(s1 :: ('w, 'm, 'o) loop_state) w2 w3.
           run_phases env dls epoch (phases_of dls) s = Inr s1 \<and>
           emitted s s' =
             phase_calls dls epoch @
             [SchedulerStep sch (if lr_scheduler cfg = ''plateau''
                                 then StepLoss (the (val_loss s1)) else StepEpoch epoch)] @
             (if dls ''validation'' \<noteq> None \<and> the (val_acc s1) > best_val_acc s
              then [SaveCheckpoint (best_path cfg) epoch (model_state_dict env w2)
                      (optimizer_state_dict env w2)]
              else []) @
             (if epoch mod checkpoint_frequency cfg = 0
              then [SaveCheckpoint (periodic_path cfg epoch) epoch (model_state_dict env w3)
                      (optimizer_state_dict env w3), CleanupCheckpointDir]
              else [])"
proof -
  from assms obtain s1 s2 s3 :: "('w, 'm, 'o) loop_state" where
    e1: "events s1 = events s @ phase_calls dls epoch" and
    e2: "events s2 = events s1 @ [SchedulerStep sch (if lr_scheduler cfg = ''plateau''
                           then StepLoss (the (val_loss s1)) else StepEpoch epoch)]" and
    e3: "events s3 = events s2 @
       (if dls ''validation'' \<noteq> None \<and> the (val_acc s1) > best_val_acc s
        then [SaveCheckpoint (best_path cfg) epoch (model_state_dict env (world s2))
                (optimizer_state_dict env (world s2))]
        else [])" and
    e4: "events s' = events s3 @
       (if epoch mod checkpoint_frequency cfg = 0
        then [SaveCheckpoint (periodic_path cfg epoch) epoch (model_state_dict env (world s3))
                (optimizer_state_dict env (world s3)), CleanupCheckpointDir]
        else [])" and
    f: "checkpoint_frequency cfg \<noteq> 0" and
    ph: "run_phases env dls epoch (phases_of dls) s = Inr s1"
    by (rule epoch_body_trace)
  have "events s' = events s @ 
             (phase_calls dls epoch @
             [SchedulerStep sch (if lr_scheduler cfg = ''plateau''
                                 then StepLoss (the (val_loss s1)) else StepEpoch epoch)] @
             (if dls ''validation'' \<noteq> None \<and> the (val_acc s1) > best_val_acc s
              then [SaveCheckpoint (best_path cfg) epoch (model_state_dict env (world s2))
                      (optimizer_state_dict env (world s2))]
              else []) @
             (if epoch mod checkpoint_frequency cfg = 0
              then [SaveCheckpoint (periodic_path cfg epoch) epoch (model_state_dict env (world s3))
                      (optimizer_state_dict env (world s3)), CleanupCheckpointDir]
              else []))"
    unfolding e4 e3 e2 e1 by simp
  then have "emitted s s' = 
             phase_calls dls epoch @
             [SchedulerStep sch (if lr_scheduler cfg = ''plateau''
                                 then StepLoss (the (val_loss s1)) else StepEpoch epoch)] @
             (if dls ''validation'' \<noteq> None \<and> the (val_acc s1) > best_val_acc s
              then [SaveCheckpoint (best_path cfg) epoch (model_state_dict env (world s2))
                      (optimizer_state_dict env (world s2))]
              else []) @
             (if epoch mod checkpoint_frequency cfg = 0
              then [SaveCheckpoint (periodic_path cfg epoch) epoch (model_state_dict env (world s3))
                      (optimizer_state_dict env (world s3)), CleanupCheckpointDir]
              else [])"
    by (rule emitted_append)
  with ph show ?thesis by blast
qed

text \<open>Every event of one iteration is one of at most six calls.\<close>

lemma epoch_body_emitted_cases:
  fixes env :: "('w, 'm, 'o, 'l) env" and s :: "('w, 'm, 'o) loop_state"
  assumes "epoch_body env cfg dls (phases_of dls) sch epoch s = Inr (s', brk)"
    and "ev \<in> set (emitted s s')"
  shows "ev = TrainEpoch epoch \<or> ev = ValidationEpoch epoch \<or>
         (\<exists>arg. ev = SchedulerStep sch arg) \<or>
         (\<exists>w. ev = SaveCheckpoint (best_path cfg) epoch (model_state_dict env w)
                 (optimizer_state_dict env w)) \<or>
         (epoch mod checkpoint_frequency cfg = 0 \<and>
          (\<exists>w. ev = SaveCheckpoint (periodic_path cfg epoch) epoch (model_state_dict env w)
                  (optimizer_state_dict env w))) \<or>
         (epoch mod checkpoint_frequency cfg = 0 \<and> ev = CleanupCheckpointDir)"
proof -
  from epoch_body_emitted [OF assms(1)] obtain s1 :: "('w, 'm, 'o) loop_state" and w2 w3 where
    em: "emitted s s' =
             phase_calls dls epoch @
             [SchedulerStep sch (if lr_scheduler cfg = ''plateau''
                                 then StepLoss (the (val_loss s1)) else StepEpoch epoch)] @
             (if dls ''validation'' \<noteq> None \<and> the (val_acc s1) > best_val_acc s
              then [SaveCheckpoint (best_path cfg) epoch (model_state_dict env w2)
                      (optimizer_state_dict env w2)]
              else []) @
             (if epoch mod checkpoint_frequency cfg = 0
              then [SaveCheckpoint (periodic_path cfg epoch) epoch (model_state_dict env w3)
                      (optimizer_state_dict env w3), CleanupCheckpointDir]
              else [])"
    by blast
  from assms(2) have "ev \<in> set (phase_calls dls epoch) \<or>
      ev = SchedulerStep sch (if lr_scheduler cfg = ''plateau''
                                 then StepLoss (the (val_loss s1)) else StepEpoch epoch) \<or>
      ev \<in> set (if dls ''validation'' \<noteq> None \<and> the (val_acc s1) > best_val_acc s
              then [SaveCheckpoint (best_path cfg) epoch (model_state_dict env w2)
                      (optimizer_state_dict env w2)]
              else []) \<or>
      ev \<in> set (if epoch mod checkpoint_frequency cfg = 0
              then [SaveCheckpoint (periodic_path cfg epoch) epoch (model_state_dict env w3)
                      (optimizer_state_dict env w3), CleanupCheckpointDir]
              else [])"
    unfolding em by (auto split: if_splits)
  then show ?thesis
  proof (elim disjE)
    assume "ev \<in> set (phase_calls dls epoch)"
    then show ?thesis by (auto simp: phase_calls_def split: if_splits)
  next
    assume "ev = SchedulerStep sch (if lr_scheduler cfg = ''plateau''
                                 then StepLoss (the (val_loss s1)) else StepEpoch epoch)"
    then show ?thesis by blast
  next
    assume "ev \<in> set (if dls ''validation'' \<noteq> None \<and> the (val_acc s1) > best_val_acc s
              then [SaveCheckpoint (best_path cfg) epoch (model_state_dict env w2)
                      (optimizer_state_dict env w2)]
              else [])"
    then have "ev = SaveCheckpoint (best_path cfg) epoch (model_state_dict env w2)
                      (optimizer_state_dict env w2)"
      by (simp split: if_splits)
    then show ?thesis by blast
  next
    assume "ev \<in> set (if epoch mod checkpoint_frequency cfg = 0
              then [SaveCheckpoint (periodic_path cfg epoch) epoch (model_state_dict env w3)
                      (optimizer_state_dict env w3), CleanupCheckpointDir]
              else [])"
    then have "epoch mod checkpoint_frequency cfg = 0 \<and>
       (ev = SaveCheckpoint (periodic_path cfg epoch) epoch (model_state_dict env w3)
                      (optimizer_state_dict env w3) \<or> ev = CleanupCheckpointDir)"
      by (simp split: if_splits)
    then show ?thesis by blast
  qed
qed

subsection \<open>The loop as a whole\<close>

lemma epoch_loop_epochs:
  "\<exists>n. map fst (fst (epoch_loop env cfg dls ph sch es s)) = take n es"
proof (induction es arbitrary: s)
  case Nil
  show ?case by simp
next
  case (Cons e es)
  show ?case
  proof (cases "epoch_body env cfg dls ph sch e s")
    case (Inl err)
    then have "map fst (fst (epoch_loop env cfg dls ph sch (e # es) s)) = take 1 (e # es)"
      by simp
    then show ?thesis by blast
  next
    case (Inr r)
    obtain s' brk where r: "r = (s', brk)" by (cases r)
    show ?thesis
    proof (cases brk)
      case True
      with Inr r have "map fst (fst (epoch_loop env cfg dls ph sch (e # es) s)) = take 1 (e # es)"
        by simp
      then show ?thesis by blast
    next
      case False
      from Cons.IH [of s'] obtain n
        where "map fst (fst (epoch_loop env cfg dls ph sch es s')) = take n es" by blast
      with Inr r False
      have "map fst (fst (epoch_loop env cfg dls ph sch (e # es) s)) = take (Suc n) (e # es)"
        by (simp add: case_prod_beta)
      then show ?thesis by blast
    qed
  qed
qed

lemma epoch_loop_invariant:
  assumes step: "\<And>e s s' b. P s \<Longrightarrow> epoch_body env cfg dls ph sch e s = Inr (s', b) \<Longrightarrow> P s'"
    and "P s0"
    and "(e, s) \<in> set (fst (epoch_loop env cfg dls ph sch es s0))"
  shows "P s"
  using assms(2,3)
proof (induction es arbitrary: s0)
  case Nil
  then show ?case by simp
next
  case (Cons e' es)
  show ?case
  proof (cases "epoch_body env cfg dls ph sch e' s0")
    case (Inl err)
    with Cons.prems show ?thesis by simp
  next
    case (Inr r)
    obtain s' brk where r: "r = (s', brk)" by (cases r)
    show ?thesis
    proof (cases brk)
      case True
      with Inr r Cons.prems show ?thesis by simp
    next
      case False
      from Inr r Cons.prems(1) have P': "P s'" by (auto intro: step)
      from Inr r False Cons.prems(2)
      have "(e, s) = (e', s0) \<or> (e, s) \<in> set (fst (epoch_loop env cfg dls ph sch es s'))"
        by (simp add: case_prod_beta)
      then show ?thesis
      proof
        assume "(e, s) = (e', s0)"
        with Cons.prems(1) show ?thesis by simp
      next
        assume "(e, s) \<in> set (fst (epoch_loop env cfg dls ph sch es s'))"
        with P' show ?thesis by (rule Cons.IH)
      qed
    qed
  qed
qed

lemma epoch_loop_next:
  assumes "Suc i < length (fst (epoch_loop env cfg dls ph sch es s0))"
  shows "epoch_body env cfg dls ph sch
           (fst (fst (epoch_loop env cfg dls ph sch es s0) ! i))
           (snd (fst (epoch_loop env cfg dls ph sch es s0) ! i))
         = Inr (snd (fst (epoch_loop env cfg dls ph sch es s0) ! Suc i), False)"
  using assms
proof (induction es arbitrary: s0 i)
  case Nil
  then show ?case by simp
next
  case (Cons e' es)
  show ?case
  proof (cases "epoch_body env cfg dls ph sch e' s0")
    case (Inl err)
    with Cons.prems show ?thesis by simp
  next
    case (Inr r)
    obtain s' brk where r: "r = (s', brk)" by (cases r)
    show ?thesis
    proof (cases brk)
      case True
      with Inr r Cons.prems show ?thesis by simp
    next
      case False
      let ?rest = "fst (epoch_loop env cfg dls ph sch es s')"
      from Inr r False
      have its: "fst (epoch_loop env cfg dls ph sch (e' # es) s0) = (e', s0) # ?rest"
        by (simp add: case_prod_beta)
      show ?thesis
      proof (cases i)
        case 0
        from Cons.prems its have ne: "?rest \<noteq> []" by auto
        have "snd (hd ?rest) = s'"
        proof (cases es)
          case Nil
          with ne show ?thesis by simp
        next
          case (Cons e2 es2)
          then show ?thesis
            by (auto simp: case_prod_beta split: sum.splits if_splits)
        qed
        with ne have "snd (?rest ! 0) = s'" by (simp add: hd_conv_nth)
        with 0 its Inr r False show ?thesis by simp
      next
        case (Suc j)
        with Cons.prems its have "Suc j < length ?rest" by simp
        from Cons.IH [OF this] Suc its show ?thesis by simp
      qed
    qed
  qed
qed

lemma make_scheduler_plateau:
  assumes "make_scheduler env cfg (phases_of dls) = Inr sch" and "lr_scheduler cfg = ''plateau''"
  shows "dls ''validation'' \<noteq> None"
    and "sch = ReduceLROnPlateau (lr_scheduler_gamma cfg) (lr_plateau_patience cfg)"
  using assms by (auto simp: make_scheduler_def phases_of_def split: if_splits)

lemma main_iterations:
  assumes "make_scheduler env cfg (phases_of dls) = Inr sch"
  shows "fst (main env cfg dls w0) =
         fst (epoch_loop env cfg dls (phases_of dls) sch
               [start_epoch cfg .. num_epochs cfg] (init_state w0))"
  using assms by (simp add: main_def split: prod.splits sum.splits)

lemma main_no_iterations:
  assumes "make_scheduler env cfg (phases_of dls) = Inl err"
  shows "main env cfg dls w0 = ([], Inl err)"
  using assms by (simp add: main_def)

subsection \<open>The best accuracy is the maximum of the history\<close>

lemma epoch_body_variables:
  fixes env :: "('w, 'm, 'o, 'l) env" and s :: "('w, 'm, 'o) loop_state"
  assumes body: "epoch_body env cfg dls (phases_of dls) sch epoch s = Inr (s', brk)"
  shows "dls ''validation'' = None \<Longrightarrow>
           val_acc_history s' = val_acc_history s \<and> best_val_acc s' = best_val_acc s"
    and "dls ''validation'' = Some vloader \<Longrightarrow>
           \<exists>l a d. epoch_val_result env dls epoch s = Some (l, a, d) \<and>
             val_acc_history s' = val_acc_history s @ [a] \<and>
             best_val_acc s' = (if a > best_val_acc s then a else best_val_acc s)"
proof -
  from body obtain s1 s2 s3 :: "('w, 'm, 'o) loop_state" where
    ph: "run_phases env dls epoch (phases_of dls) s = Inr s1" and
    h: "val_acc_history s' = val_acc_history s1" and
    b: "best_val_acc s' =
       (if dls ''validation'' \<noteq> None \<and> the (val_acc s1) > best_val_acc s
        then the (val_acc s1) else best_val_acc s)"
    by (rule epoch_body_trace)
  show "val_acc_history s' = val_acc_history s \<and> best_val_acc s' = best_val_acc s"
    if "dls ''validation'' = None"
    using run_phases_no_validation(2) [OF that ph] h b that by simp
  show "\<exists>l a d. epoch_val_result env dls epoch s = Some (l, a, d) \<and>
             val_acc_history s' = val_acc_history s @ [a] \<and>
             best_val_acc s' = (if a > best_val_acc s then a else best_val_acc s)"
    if "dls ''validation'' = Some vloader"
  proof -
    from run_phases_validation(2) [OF that ph] obtain l a d where
      "epoch_val_result env dls epoch s = Some (l, a, d)" "val_acc s1 = Some a"
      "val_acc_history s1 = val_acc_history s @ [a]"
      by blast
    with h b that show ?thesis by simp
  qed
qed



subsection \<open>The exceptions a run can end with\<close>

lemma epoch_body_errors:
  assumes "lr_scheduler cfg = ''plateau'' \<longrightarrow> dls ''validation'' \<noteq> None"
    and "epoch_body env cfg dls (phases_of dls) sch epoch s = Inl err"
  shows "err = KeyError \<or> err = ZeroDivisionError"
proof (cases "dls ''validation''")
  case None
  with assms(1) have "lr_scheduler cfg \<noteq> ''plateau''" by auto
  with None assms(2) show ?thesis
    by (auto simp: epoch_body_def phases_of_def run_phase_def update_lr_def save_best_def
          save_periodic_def Let_def split: sum.splits option.splits prod.splits if_splits)
next
  case (Some vloader)
  with assms(2) show ?thesis
    by (auto simp: epoch_body_def phases_of_def run_phase_def update_lr_def save_best_def
          save_periodic_def Let_def split: sum.splits option.splits prod.splits if_splits)
qed

lemma epoch_loop_errors:
  assumes "lr_scheduler cfg = ''plateau'' \<longrightarrow> dls ''validation'' \<noteq> None"
  shows "snd (epoch_loop env cfg dls (phases_of dls) sch es s) = Inl err \<Longrightarrow>
         err = KeyError \<or> err = ZeroDivisionError"
proof (induction es arbitrary: s)
  case Nil
  then show ?case by simp
next
  case (Cons e es)
  show ?case
  proof (cases "epoch_body env cfg dls (phases_of dls) sch e s")
    case (Inl err')
    with Cons.prems have "epoch_body env cfg dls (phases_of dls) sch e s = Inl err" by simp
    with assms show ?thesis by (rule epoch_body_errors)
  next
    case (Inr r)
    obtain s' brk where r: "r = (s', brk)" by (cases r)
    show ?thesis
    proof (cases brk)
      case True
      with Inr r Cons.prems show ?thesis by simp
    next
      case False
      with Inr r Cons.prems
      have "snd (epoch_loop env cfg dls (phases_of dls) sch es s') = Inl err"
        by (simp add: case_prod_beta)
      then show ?thesis by (rule Cons.IH)
    qed
  qed
qed

lemma int_all_errors: "int_all f xs = Inl err \<Longrightarrow> err = ValueError"
  by (induction xs arbitrary: err) (auto split: option.splits sum.splits)

lemma main_errors:
  assumes "snd (main env cfg dls w0) = Inl err"
  shows "err = KeyError \<or> err = ZeroDivisionError \<or> err = AttributeError \<or>
         (err = AssertionError \<and> lr_scheduler cfg = ''plateau'' \<and> dls ''validation'' = None) \<or>
         (err = ValueError \<and> lr_scheduler cfg \<noteq> ''plateau'')"
proof (cases "make_scheduler env cfg (phases_of dls)")
  case (Inl e)
  with assms have "e = err" by (simp add: main_no_iterations)
  with Inl show ?thesis
    by (auto simp: make_scheduler_def phases_of_def split: if_splits sum.splits
          dest: int_all_errors)
next
  case (Inr sch)
  then have pl: "lr_scheduler cfg = ''plateau'' \<longrightarrow> dls ''validation'' \<noteq> None"
    by (auto dest: make_scheduler_plateau(1))
  let ?r = "epoch_loop env cfg dls (phases_of dls) sch
              [start_epoch cfg .. num_epochs cfg] (init_state w0)"
  show ?thesis
  proof (cases "snd ?r")
    case (Inl e)
    with Inr assms have "e = err"
      by (simp add: main_def case_prod_beta split: sum.splits)
    with Inl have "snd ?r = Inl err" by simp
    then have "err = KeyError \<or> err = ZeroDivisionError"
      by (rule epoch_loop_errors [where cfg = cfg and dls = dls, OF pl])
    then show ?thesis by blast
  next
    case Inr2: (Inr sf)
    with Inr assms have "export_logs cfg sf = Inl err"
      by (simp add: main_def case_prod_beta split: sum.splits)
    then show ?thesis by (simp add: export_logs_def split: if_splits)
  qed
qed

subsection \<open>The concrete runs, evaluated\<close>

lemmas demo_defs = demo_env_def demo_cfg_def demo_loaders_def demo_sch_def init_state_def

lemmas body_defs = epoch_body_def phases_of_def run_phase_def update_lr_def save_best_def
  save_periodic_def do_save_checkpoint_def early_stopping_def slice_from_def
  best_path_def periodic_path_def path_join_def

lemma format_03d_3: "format_03d 3 = ''003''"
  by (simp add: format_03d_def digits_of.simps digit_char_def eval_nat_numeral)

lemma demo_body_1:
  "epoch_body demo_env demo_cfg demo_loaders (phases_of demo_loaders) demo_sch 1 (init_state 0)
   = Inr (demo_state_1, False)"
  by (simp add: demo_defs demo_state_1_def body_defs)

lemma demo_body_2:
  "epoch_body demo_env demo_cfg demo_loaders (phases_of demo_loaders) demo_sch 2 demo_state_1
   = Inr (demo_state_2, False)"
  by (simp add: demo_defs demo_state_1_def demo_state_2_def body_defs format_03d_3)

lemma demo_body_3:
  "epoch_body demo_env demo_cfg demo_loaders (phases_of demo_loaders) demo_sch 3 demo_state_2
   = Inr (demo_state_3, True)"
  by (simp add: demo_defs demo_state_1_def demo_state_2_def demo_state_3_def body_defs)



lemma train_body_1:
  "epoch_body demo_env demo_cfg train_only (phases_of train_only) demo_sch 1 (init_state 0)
   = Inr (train_state_1, False)"
  by (simp add: demo_defs train_only_def train_state_1_def body_defs)

lemma train_body_2:
  "epoch_body demo_env demo_cfg train_only (phases_of train_only) demo_sch 2 train_state_1
   = Inr (train_state_2, False)"
  by (simp add: demo_defs train_only_def train_state_1_def train_state_2_def body_defs
        format_03d_3)

lemma train_body_3:
  "epoch_body demo_env demo_cfg train_only (phases_of train_only) demo_sch 3 train_state_2
   = Inr (train_state_3, True)"
  by (simp add: demo_defs train_only_def train_state_1_def train_state_2_def train_state_3_def
        body_defs)

lemma demo_make_scheduler:
  "make_scheduler demo_env demo_cfg (phases_of demo_loaders) = Inr demo_sch"
  by (simp add: make_scheduler_def demo_env_def demo_cfg_def demo_sch_def)

lemma train_make_scheduler:
  "make_scheduler demo_env demo_cfg (phases_of train_only) = Inr demo_sch"
  by (simp add: make_scheduler_def demo_env_def demo_cfg_def demo_sch_def)


lemma demo_epochs: "[start_epoch demo_cfg .. num_epochs demo_cfg] = [1, 2, 3, 4, 5]"
  by (simp add: demo_cfg_def upto_rec1)

lemma demo_iterations:
  "fst (main demo_env demo_cfg demo_loaders 0) =
     [(1, init_state 0), (2, demo_state_1), (3, demo_state_2)]"
  by (simp add: main_iterations [OF demo_make_scheduler] demo_epochs
        demo_body_1 demo_body_2 demo_body_3)

lemma train_iterations:
  "fst (main demo_env demo_cfg train_only 0) =
     [(1, init_state 0), (2, train_state_1), (3, train_state_2)]"
  by (simp add: main_iterations [OF train_make_scheduler] demo_epochs
        train_body_1 train_body_2 train_body_3)

section \<open>The claims\<close>

text \<open>
  Claims about one epoch are stated for one execution of the loop body,
  \<open>epoch_body \<dots> epoch s = Inr (s', brk)\<close>, from any state \<open>s\<close>: \<open>emitted s s'\<close> is what
  that iteration called, in order. Claims about the run are stated for the loop-head
  configurations \<open>fst (main \<dots>)\<close>.
\<close>








text \<open>
  C4. In every epoch the phases run in a fixed order: the iteration starts with the call
  of \<^verbatim>\<open>train_epoch\<close>; the call of \<^verbatim>\<open>validation_epoch\<close> follows it if and only if
  \<^verbatim>\<open>data_loaders\<close> has a \<^verbatim>\<open>'validation'\<close> loader; no other phase call is made in the
  iteration.
\<close>

theorem C4_phase_order:
  fixes env :: "('w, 'm, 'o, 'l) env" and s :: "('w, 'm, 'o) loop_state"
  assumes "epoch_body env cfg dls (phases_of dls) sch epoch s = Inr (s', brk)"
  shows "\<exists>rest. emitted s s' =
           (if dls ''validation'' \<noteq> None then [TrainEpoch epoch, ValidationEpoch epoch]
            else [TrainEpoch epoch]) @ rest
         \<and> filter is_phase_call rest = []"
proof -
  from epoch_body_emitted [OF assms] obtain rest :: "('m, 'o) event list"
    where "emitted s s' = phase_calls dls epoch @ rest" and "filter is_phase_call rest = []"
    by fastforce
  then show ?thesis unfolding phase_calls_def by blast
qed

theorem C4_phase_order_witness:
  "epoch_body demo_env demo_cfg demo_loaders (phases_of demo_loaders) demo_sch 1 (init_state 0)
     = Inr (demo_state_1, False) \<and>
   (\<exists>rest. emitted (init_state 0) demo_state_1 = [TrainEpoch 1, ValidationEpoch 1] @ rest \<and>
      filter is_phase_call rest = [])"
  using C4_phase_order [OF demo_body_1] demo_body_1
  by (simp add: demo_loaders_def)



text \<open>
  C6. Every checkpoint written in an epoch, the best one and the periodic one alike, is
  one \<^verbatim>\<open>save_checkpoint\<close> call that carries the number of the current epoch together
  with the model's and the optimizer's state dictionaries, both read from the same state
  of the world; its path is the best path or the periodic path of this epoch.
\<close>

theorem C6_checkpoint_contents:
  fixes env :: "('w, 'm, 'o, 'l) env" and s :: "('w, 'm, 'o) loop_state"
  assumes "epoch_body env cfg dls (phases_of dls) sch epoch s = Inr (s', brk)"
    and "SaveCheckpoint path ep m opt \<in> set (emitted s s')"
  shows "ep = epoch \<and>
         (\<exists>w. m = model_state_dict env w \<and> opt = optimizer_state_dict env w) \<and>
         (path = best_path cfg \<or> path = periodic_path cfg epoch)"
  using epoch_body_emitted_cases [OF assms] by auto

theorem C6_checkpoint_contents_witness:
  "epoch_body demo_env demo_cfg demo_loaders (phases_of demo_loaders) demo_sch 2 demo_state_1
     = Inr (demo_state_2, False) \<and>
   SaveCheckpoint ''ckpt/save_003.pth'' 2 2 20 \<in> set (emitted demo_state_1 demo_state_2) \<and>
   (\<exists>w. (2::nat) = model_state_dict demo_env w \<and> (20::nat) = optimizer_state_dict demo_env w)"
proof -
  have ev: "SaveCheckpoint ''ckpt/save_003.pth'' 2 2 20 \<in> set (emitted demo_state_1 demo_state_2)"
    by (simp add: emitted_def demo_state_1_def demo_state_2_def)
  from C6_checkpoint_contents [OF demo_body_2 ev] demo_body_2 ev show ?thesis
    by simp
qed

text \<open>
  C7. The epoch counter starts at \<^verbatim>\<open>config.start_epoch\<close>, grows by exactly one from each
  iteration to the next and never exceeds \<^verbatim>\<open>config.num_epochs\<close>: the \<open>i\<close>-th iteration
  of a run has epoch \<open>start_epoch + i\<close>.
\<close>

theorem C7_epoch_counter:
  "\<forall>i < length (fst (main env cfg dls w0)).
     fst (fst (main env cfg dls w0) ! i) = start_epoch cfg + int i \<and>
     fst (fst (main env cfg dls w0) ! i) \<le> num_epochs cfg"
proof (cases "make_scheduler env cfg (phases_of dls)")
  case (Inl err)
  then show ?thesis by (simp add: main_no_iterations)
next
  case (Inr sch)
  let ?its = "fst (main env cfg dls w0)"
  let ?es = "[start_epoch cfg .. num_epochs cfg]"
  from epoch_loop_epochs [of env cfg dls "phases_of dls" sch ?es "init_state w0"]
  obtain n where n: "map fst ?its = take n ?es"
    by (auto simp: main_iterations [OF Inr])
  show ?thesis
  proof (intro allI impI)
    fix i assume i: "i < length ?its"
    then have "i < length (map fst ?its)" by simp
    with n have i_n: "i < n" and i_es: "i < length ?es" by simp_all
    from i have "fst (?its ! i) = map fst ?its ! i" by simp
    also from n i_n have "\<dots> = ?es ! i" by simp
    also from i_es have "\<dots> = start_epoch cfg + int i" by simp
    finally have eq: "fst (?its ! i) = start_epoch cfg + int i" .
    from i_es have "start_epoch cfg + int i \<le> num_epochs cfg" by simp
    with eq show "fst (?its ! i) = start_epoch cfg + int i \<and> fst (?its ! i) \<le> num_epochs cfg"
      by simp
  qed
qed

theorem C7_epoch_counter_witness:
  "(2::nat) < length (fst (main demo_env demo_cfg demo_loaders 0)) \<and>
   fst (fst (main demo_env demo_cfg demo_loaders 0) ! 2) = start_epoch demo_cfg + 2 \<and>
   fst (fst (main demo_env demo_cfg demo_loaders 0) ! 2) \<le> num_epochs demo_cfg"
proof -
  have len: "(2::nat) < length (fst (main demo_env demo_cfg demo_loaders 0))"
    by (simp add: demo_iterations)
  with C7_epoch_counter [of demo_env demo_cfg demo_loaders 0] show ?thesis
    by auto
qed

text \<open>
  C8. Under the \<^verbatim>\<open>'plateau'\<close> policy a run without a validation loader ends with the
  failed assertion before the first iteration; no run ever ends with the \<^verbatim>\<open>NameError\<close>
  of reading an unbound \<^verbatim>\<open>val_loss\<close> (or \<^verbatim>\<open>val_acc\<close>); under any other policy no run
  ends with a failed assertion.
\<close>

theorem C8_plateau_needs_validation:
  "(lr_scheduler cfg = ''plateau'' \<and> dls ''validation'' = None \<longrightarrow>
      main env cfg dls w0 = ([], Inl AssertionError)) \<and>
   snd (main env cfg dls w0) \<noteq> Inl NameError \<and>
   (lr_scheduler cfg \<noteq> ''plateau'' \<longrightarrow> snd (main env cfg dls w0) \<noteq> Inl AssertionError)"
proof (intro conjI impI)
  assume "lr_scheduler cfg = ''plateau'' \<and> dls ''validation'' = None"
  then have "make_scheduler env cfg (phases_of dls) = Inl AssertionError"
    by (simp add: make_scheduler_def phases_of_def)
  then show "main env cfg dls w0 = ([], Inl AssertionError)"
    by (rule main_no_iterations)
next
  show "snd (main env cfg dls w0) \<noteq> Inl NameError"
    using main_errors [of env cfg dls w0 NameError] by auto
next
  assume "lr_scheduler cfg \<noteq> ''plateau''"
  then show "snd (main env cfg dls w0) \<noteq> Inl AssertionError"
    using main_errors [of env cfg dls w0 AssertionError] by auto
qed

theorem C8_plateau_needs_validation_witness:
  "lr_scheduler plateau_cfg = ''plateau'' \<and> train_only ''validation'' = None \<and>
   main demo_env plateau_cfg train_only 0 = ([], Inl AssertionError) \<and>
   lr_scheduler demo_cfg \<noteq> ''plateau'' \<and>
   snd (main demo_env demo_cfg train_only 0) \<noteq> Inl AssertionError"
proof -
  have p: "lr_scheduler plateau_cfg = ''plateau''" and n: "train_only ''validation'' = None"
    and q: "lr_scheduler demo_cfg \<noteq> ''plateau''"
    by (simp_all add: plateau_cfg_def demo_cfg_def train_only_def)
  from C8_plateau_needs_validation [of plateau_cfg train_only demo_env 0] p n
  have "main demo_env plateau_cfg train_only 0 = ([], Inl AssertionError)" by blast
  moreover from C8_plateau_needs_validation [of demo_cfg train_only demo_env 0] q
  have "snd (main demo_env demo_cfg train_only 0) \<noteq> Inl AssertionError" by blast
  ultimately show ?thesis using p n q by blast
qed

text \<open>
  C9. Without a validation loader \<^verbatim>\<open>val_acc_history\<close> is empty at every iteration, so is
  the early-stopping slice, and the loop body breaks exactly when the epoch exceeds
  \<^verbatim>\<open>early_stopping_patience\<close>: an iteration whose epoch exceeds the patience is the last
  one of the run.
\<close>

theorem C9_no_validation_stops:
  fixes env :: "('w, 'm, 'o, 'l) env" and s :: "('w, 'm, 'o) loop_state"
  assumes nov: "dls ''validation'' = None"
    and sch: "make_scheduler env cfg (phases_of dls) = Inr sch"
    and i: "i < length (fst (main env cfg dls w0))"
    and at: "fst (main env cfg dls w0) ! i = (epoch, s)"
  shows "val_acc_history s = [] \<and>
         (\<forall>s' brk. epoch_body env cfg dls (phases_of dls) sch epoch s = Inr (s', brk) \<longrightarrow>
            val_acc_history s' = [] \<and>
            slice_from (- early_stopping_patience cfg) (val_acc_history s') = [] \<and>
            (brk \<longleftrightarrow> epoch > early_stopping_patience cfg)) \<and>
         (epoch > early_stopping_patience cfg \<longrightarrow> Suc i = length (fst (main env cfg dls w0)))"
proof -
  let ?loop = "epoch_loop env cfg dls (phases_of dls) sch
                 [start_epoch cfg .. num_epochs cfg] (init_state w0)"
  have its: "fst (main env cfg dls w0) = fst ?loop"
    using sch by (rule main_iterations)
  let ?P = "\<lambda>s :: ('w, 'm, 'o) loop_state. val_acc_history s = []"
  have init: "?P (init_state w0)" by (simp add: init_state_def)
  from i at have "(epoch, s) \<in> set (fst ?loop)"
    unfolding its by (metis nth_mem)
  note mem = this
  have step: "?P t'" if "?P t" and "epoch_body env cfg dls (phases_of dls) sch e t = Inr (t', b)"
    for e b and t t' :: "('w, 'm, 'o) loop_state"
    using epoch_body_variables(1) [where dls = dls, OF that(2) nov] that(1) by simp
  from init \<open>(epoch, s) \<in> set (fst ?loop)\<close> have empty: "val_acc_history s = []"
    by (rule epoch_loop_invariant [where P = ?P, rotated]) (rule step)
  have slice: "slice_from k ([] :: real list) = []" for k
    by (simp add: slice_from_def)
  have body: "val_acc_history s' = [] \<and>
              slice_from (- early_stopping_patience cfg) (val_acc_history s') = [] \<and>
              (brk \<longleftrightarrow> epoch > early_stopping_patience cfg)"
    if b: "epoch_body env cfg dls (phases_of dls) sch epoch s = Inr (s', brk)" for s' brk
  proof -
    from epoch_body_variables(1) [where dls = dls, OF b nov] empty have h: "val_acc_history s' = []" by simp
    from b have "brk = early_stopping cfg epoch s'" by (rule epoch_body_split)
    with h show ?thesis by (simp add: early_stopping_def slice)
  qed
  have last: "Suc i = length (fst (main env cfg dls w0))"
    if gt: "epoch > early_stopping_patience cfg"
  proof (rule ccontr)
    assume "Suc i \<noteq> length (fst (main env cfg dls w0))"
    with i have "Suc i < length (fst ?loop)" unfolding its by simp
    from epoch_loop_next [OF this] at
    have "epoch_body env cfg dls (phases_of dls) sch epoch s = Inr (snd (fst ?loop ! Suc i), False)"
      unfolding its by simp
    from body [OF this] gt show False by simp
  qed
  from empty body last show ?thesis by blast
qed

theorem C9_no_validation_stops_witness:
  "train_only ''validation'' = None \<and>
   make_scheduler demo_env demo_cfg (phases_of train_only) = Inr demo_sch \<and>
   (2::nat) < length (fst (main demo_env demo_cfg train_only 0)) \<and>
   fst (main demo_env demo_cfg train_only 0) ! 2 = (3, train_state_2) \<and>
   val_acc_history train_state_2 = [] \<and>
   epoch_body demo_env demo_cfg train_only (phases_of train_only) demo_sch 3 train_state_2
     = Inr (train_state_3, True) \<and>
   slice_from (- early_stopping_patience demo_cfg) (val_acc_history train_state_3) = [] \<and>
   3 > early_stopping_patience demo_cfg \<and>
   Suc 2 = length (fst (main demo_env demo_cfg train_only 0))"
proof -
  have n: "train_only ''validation'' = None"
    by (simp add: train_only_def)
  have i: "(2::nat) < length (fst (main demo_env demo_cfg train_only 0))"
    and at: "fst (main demo_env demo_cfg train_only 0) ! 2 = (3, train_state_2)"
    by (simp_all add: train_iterations)
  have k: "3 > early_stopping_patience demo_cfg"
    by (simp add: demo_cfg_def)
  from C9_no_validation_stops [OF n train_make_scheduler i at] k train_body_3
  have "val_acc_history train_state_2 = []"
    and "slice_from (- early_stopping_patience demo_cfg) (val_acc_history train_state_3) = []"
    and "Suc 2 = length (fst (main demo_env demo_cfg train_only 0))"
    by blast+
  with n train_make_scheduler i at k train_body_3 show ?thesis by blast
qed



end
